theory Spec2Isabelle
  imports Main
begin

section \<open>LazyExecute: deferred parsing behind a Proxy (src/psd/lazy_execute.js)\<close>

text \<open>
  The class \<^verbatim>\<open>LazyExecute\<close> wraps a target object and a file. It remembers the file
  position at construction, lets the caller register a method to run later, and hands out
  a \<^verbatim>\<open>Proxy\<close> whose \<^verbatim>\<open>get\<close> trap runs \<^verbatim>\<open>load()\<close> on the first access to a member that is
  not on the pass-through list.

  The embedding keeps the shape of the class: the instance is a record, every method is
  a function on an explicit world (the instance, the JavaScript objects it refers to, the
  file cursors, the console), and an exception is an outcome carrying the world in which
  it was thrown.
\<close>

subsection \<open>JavaScript values and the bodies of the target's methods\<close>

type_synonym name = string
type_synonym addr = nat

text \<open>
  The target object and its methods are not part of the class; they are whatever the
  caller wraps. A method body is therefore modelled as a script over the operations that
  matter to \<^verbatim>\<open>LazyExecute\<close>: reading a member of \<^verbatim>\<open>this\<close>, reading a member through the
  wrapper (a re-entrant access), writing a member of \<^verbatim>\<open>this\<close>, seeking a file, throwing,
  and returning a value. Scripts are closed: the argument list of a call is recorded in
  the invocation log but not read by the script. A script has no handle on the
  \<^verbatim>\<open>LazyExecute\<close> instance: the class gives out the Proxy only, and the instance is
  reachable through the closures of the two traps alone.
\<close>

datatype val = Undefined | Num int | Str string | Fn "stmt list"
and expr =
    Const val      \<comment> \<open>a literal\<close>
  | This name      \<comment> \<open>\<^verbatim>\<open>this[name]\<close>\<close>
  | Wrapper name   \<comment> \<open>\<^verbatim>\<open>wrapper[name]\<close>, through the Proxy returned by \<^verbatim>\<open>get()\<close>\<close>
and stmt =
    Eval expr      \<comment> \<open>evaluate and discard\<close>
  | Ret expr       \<comment> \<open>\<^verbatim>\<open>return e\<close>\<close>
  | Put name val   \<comment> \<open>\<^verbatim>\<open>this[name] = v\<close>\<close>
  | Seek addr int  \<comment> \<open>\<^verbatim>\<open>file.seek(n)\<close> on the file at the given address\<close>
  | Throw string   \<comment> \<open>\<^verbatim>\<open>throw new Error(msg)\<close>\<close>

datatype error = TypeError | ReferenceError | Thrown string

text \<open>What \<^verbatim>\<open>this\<close> is bound to inside a running body.\<close>

datatype ref =
    Obj addr   \<comment> \<open>the plain object at an address\<close>
  | Prx addr   \<comment> \<open>the Proxy whose target is the object at that address\<close>
  | NoThis     \<comment> \<open>\<^verbatim>\<open>undefined\<close>\<close>

record object =
  props :: "name \<rightharpoonup> val"              \<comment> \<open>the members, prototype chain flattened\<close>
  call_body :: "stmt list option"     \<comment> \<open>the body when the object itself is a function\<close>

subsection \<open>The instance and the world\<close>

text \<open>
  The fields assigned by the constructor (lines 27-35). \<^verbatim>\<open>obj\<close> and \<^verbatim>\<open>file\<close> are
  references, so they are addresses; \<^verbatim>\<open>loadMethod\<close> is \<^verbatim>\<open>null\<close> until \<^verbatim>\<open>later\<close> is called.
  Member names are strings (a Symbol key is outside the model).
\<close>

record lazy_execute =
  obj :: addr
  file_ref :: addr   \<comment> \<open>the field \<^verbatim>\<open>file\<close>\<close>
  startPos :: int
  loaded :: bool
  loadMethod :: "name option"
  loadArgs :: "val list"
  passthru :: "name list"

text \<open>
  The world holds the one instance under study, the objects, the cursor of every file,
  the lines written by \<^verbatim>\<open>console.log\<close>, and a log of the method invocations the instance
  has made: method key, arguments, and the position of the instance's file at the moment
  of the call. The log is an observer only; no function reads it.
\<close>

record world =
  lz :: lazy_execute
  heap :: "addr \<Rightarrow> object"
  files :: "addr \<Rightarrow> int"
  console :: "string list"
  calls :: "(name \<times> val list \<times> int) list"

datatype outcome =
    OutOfFuel               \<comment> \<open>the call depth was exhausted: no result\<close>
  | Raised error world      \<comment> \<open>an exception, with the world at the throw\<close>
  | Returned val world

fun world_of :: "outcome \<Rightarrow> world option" where
  "world_of OutOfFuel = None"
| "world_of (Raised e w) = Some w"
| "world_of (Returned v w) = Some w"

text \<open>How a function body is run: the receiver, the body, the world.\<close>

type_synonym handler = "ref \<Rightarrow> stmt list \<Rightarrow> world \<Rightarrow> outcome"

subsection \<open>The collaborators: members of an object, the file cursor\<close>

text \<open>\<^verbatim>\<open>o[name]\<close>: a missing member reads as \<^verbatim>\<open>undefined\<close>.\<close>

definition get_prop :: "object \<Rightarrow> name \<Rightarrow> val" where
  "get_prop ob n = (case props ob n of None \<Rightarrow> Undefined | Some v \<Rightarrow> v)"

text \<open>
  Modelled from the spec: \<^verbatim>\<open>file.tell()\<close>. The file class is not among the sources;
  section 6 gives its contract, where \<^verbatim>\<open>currentPosition()\<close> returns the current offset.
\<close>

definition tell :: "addr \<Rightarrow> world \<Rightarrow> int" where
  "tell f w = files w f"

text \<open>
  Modelled from the spec: \<^verbatim>\<open>file.seek(n)\<close>. The file class is not among the sources;
  by section 6 it is an absolute seek to the given offset with no other effect.
\<close>

definition seek :: "addr \<Rightarrow> int \<Rightarrow> world \<Rightarrow> world" where
  "seek f n w = w\<lparr>files := (files w)(f := n)\<rparr>"

text \<open>\<^verbatim>\<open>Array.prototype.includes\<close> on a list of strings: a linear search by equality.\<close>

primrec array_includes :: "name list \<Rightarrow> name \<Rightarrow> bool" where
  "array_includes [] n = False"
| "array_includes (x # xs) n = (x = n \<or> array_includes xs n)"

text \<open>The property key of \<^verbatim>\<open>obj[loadMethod]\<close>: \<^verbatim>\<open>null\<close> is converted to the string "null".\<close>

definition key_of :: "name option \<Rightarrow> name" where
  "key_of m = (case m of None \<Rightarrow> ''null'' | Some n \<Rightarrow> n)"

subsection \<open>The class\<close>

text \<open>The constructor, lines 27-35.\<close>

definition new_LazyExecute :: "addr \<Rightarrow> addr \<Rightarrow> world \<Rightarrow> world" where
  "new_LazyExecute ob fl w =
     w\<lparr>lz := \<lparr>obj = ob, file_ref = fl, startPos = tell fl w, loaded = False,
              loadMethod = None, loadArgs = [], passthru = []\<rparr>\<rparr>"

text \<open>
  \<^verbatim>\<open>this.obj[method].apply(this.obj, args)\<close>, the expression shared by \<^verbatim>\<open>now\<close> (line 41)
  and \<^verbatim>\<open>load\<close> (line 97). Anything but a function under that key is a TypeError, raised
  before any body runs. The body runs with \<^verbatim>\<open>this\<close> bound to the plain object. (A
  function stored as a member has no members of its own in this model, so its \<^verbatim>\<open>apply\<close>
  is the built-in one.)
\<close>

definition apply_method :: "handler \<Rightarrow> addr \<Rightarrow> name \<Rightarrow> val list \<Rightarrow> world \<Rightarrow> outcome" where
  "apply_method h a m args w =
     (case get_prop (heap w a) m of
        Fn body \<Rightarrow> h (Obj a) body (w\<lparr>calls := calls w @ [(m, args, tell (file_ref (lz w)) w)]\<rparr>)
      | _ \<Rightarrow> Raised TypeError w)"

text \<open>
  \<^verbatim>\<open>now\<close>, lines 40-43. The value of the call is dropped; the method returns the
  instance, which is part of the world.
\<close>

definition now :: "handler \<Rightarrow> name \<Rightarrow> val list \<Rightarrow> world \<Rightarrow> outcome" where
  "now h m args w =
     (case apply_method h (obj (lz w)) m args w of
        OutOfFuel \<Rightarrow> OutOfFuel
      | Raised e w' \<Rightarrow> Raised e w'
      | Returned r w' \<Rightarrow> Returned Undefined w')"

text \<open>\<^verbatim>\<open>later\<close>, lines 47-51.\<close>

definition later :: "name \<Rightarrow> val list \<Rightarrow> world \<Rightarrow> world" where
  "later m args w = w\<lparr>lz := (lz w)\<lparr>loadMethod := Some m, loadArgs := args\<rparr>\<rparr>"

text \<open>\<^verbatim>\<open>ignore\<close>, lines 59-62.\<close>

definition ignore :: "name list \<Rightarrow> world \<Rightarrow> world" where
  "ignore args w = w\<lparr>lz := (lz w)\<lparr>passthru := passthru (lz w) @ args\<rparr>\<rparr>"

text \<open>
  \<^verbatim>\<open>load\<close>, lines 93-101: record the position, seek to the start position, call the load
  method, seek back, set the flag. An exception of the call leaves the function at
  line 97.
\<close>

definition load :: "handler \<Rightarrow> world \<Rightarrow> outcome" where
  "load h w =
     (let origPos = tell (file_ref (lz w)) w;
          w1 = seek (file_ref (lz w)) (startPos (lz w)) w
      in case apply_method h (obj (lz w1)) (key_of (loadMethod (lz w1))) (loadArgs (lz w1)) w1 of
           OutOfFuel \<Rightarrow> OutOfFuel
         | Raised e w2 \<Rightarrow> Raised e w2
         | Returned r w2 \<Rightarrow>
             (let w3 = seek (file_ref (lz w2)) origPos w2
              in Returned Undefined (w3\<lparr>lz := (lz w3)\<lparr>loaded := True\<rparr>\<rparr>)))"

text \<open>The line written by \<^verbatim>\<open>console.log\<close> before a load (lines 68 and 76).\<close>

definition announce :: "string \<Rightarrow> name \<Rightarrow> world \<Rightarrow> world" where
  "announce verb n w =
     w\<lparr>console := console w @ [''LazyExecute: '' @ verb @ '' '' @ n @ ''. Loading!'']\<rparr>"

text \<open>The \<^verbatim>\<open>get\<close> trap of the Proxy, lines 66-73.\<close>

definition get_trap :: "handler \<Rightarrow> addr \<Rightarrow> name \<Rightarrow> world \<Rightarrow> outcome" where
  "get_trap h target n w =
     (if \<not> loaded (lz w) \<and> \<not> array_includes (passthru (lz w)) n then
        (case load h (announce ''getting'' n w) of
           OutOfFuel \<Rightarrow> OutOfFuel
         | Raised e w' \<Rightarrow> Raised e w'
         | Returned r w' \<Rightarrow> Returned (get_prop (heap w' target) n) w')
      else Returned (get_prop (heap w target) n) w)"

text \<open>
  \<^verbatim>\<open>target.apply(self, args)\<close> as a statement (line 80). The member \<^verbatim>\<open>apply\<close> is looked
  up on the target: when the target has no member of that name it is the built-in one,
  which runs the target's body with \<^verbatim>\<open>this\<close> bound to \<^verbatim>\<open>self\<close>; a function stored under
  that name is called instead, with \<^verbatim>\<open>this\<close> bound to the target; anything else stored
  there is not callable, a TypeError. The value of the call is dropped, and the trap
  falls off its end.
\<close>

definition forward_call :: "handler \<Rightarrow> addr \<Rightarrow> ref \<Rightarrow> stmt list \<Rightarrow> world \<Rightarrow> outcome" where
  "forward_call h target self body w =
     (case (case props (heap w target) ''apply'' of
              None \<Rightarrow> h self body w
            | Some f \<Rightarrow> (case f of Fn own \<Rightarrow> h (Obj target) own w | _ \<Rightarrow> Raised TypeError w)) of
        OutOfFuel \<Rightarrow> OutOfFuel
      | Raised e w' \<Rightarrow> Raised e w'
      | Returned r w' \<Rightarrow> Returned Undefined w')"

text \<open>
  The \<^verbatim>\<open>apply\<close> trap, lines 74-81. It runs when the wrapper itself is called, which needs
  a callable target (otherwise the call is a TypeError before the trap). The trap has no
  parameter called \<^verbatim>\<open>name\<close>: the identifier on lines 75-76 is a free variable of the
  module, so its value is a parameter here, \<open>None\<close> when nothing binds it (a
  ReferenceError in module code). It is only evaluated when \<^verbatim>\<open>this.loaded\<close> is false.
\<close>

definition apply_trap :: "handler \<Rightarrow> name option \<Rightarrow> addr \<Rightarrow> ref \<Rightarrow> val list \<Rightarrow> world \<Rightarrow> outcome" where
  "apply_trap h free_name target self args w =
     (case call_body (heap w target) of
        None \<Rightarrow> Raised TypeError w
      | Some body \<Rightarrow>
          (if loaded (lz w) then forward_call h target self body w
           else (case free_name of
                   None \<Rightarrow> Raised ReferenceError w
                 | Some n \<Rightarrow>
                     (if array_includes (passthru (lz w)) n then forward_call h target self body w
                      else (case load h (announce ''calling'' n w) of
                              OutOfFuel \<Rightarrow> OutOfFuel
                            | Raised e w' \<Rightarrow> Raised e w'
                            | Returned r w' \<Rightarrow> forward_call h target self body w')))))"

text \<open>\<^verbatim>\<open>get()\<close>, lines 64-83: the Proxy over \<^verbatim>\<open>this.obj\<close>.\<close>

definition get :: "world \<Rightarrow> ref" where
  "get w = Prx (obj (lz w))"

subsection \<open>Running method bodies\<close>

text \<open>
  Reading a member through a reference: directly for a plain object, through the
  \<^verbatim>\<open>get\<close> trap for the Proxy. The Proxy has no \<^verbatim>\<open>set\<close> trap, so a write through either
  lands on the object.
\<close>

fun read_ref :: "handler \<Rightarrow> ref \<Rightarrow> name \<Rightarrow> world \<Rightarrow> outcome" where
  "read_ref h (Obj a) n w = Returned (get_prop (heap w a) n) w"
| "read_ref h (Prx a) n w = get_trap h a n w"
| "read_ref h NoThis n w = Raised TypeError w"

definition put_prop :: "addr \<Rightarrow> name \<Rightarrow> val \<Rightarrow> world \<Rightarrow> world" where
  "put_prop a n v w =
     w\<lparr>heap := (heap w)(a := (heap w a)\<lparr>props := (props (heap w a))(n \<mapsto> v)\<rparr>)\<rparr>"

fun write_ref :: "ref \<Rightarrow> name \<Rightarrow> val \<Rightarrow> world \<Rightarrow> outcome" where
  "write_ref (Obj a) n v w = Returned v (put_prop a n v w)"
| "write_ref (Prx a) n v w = Returned v (put_prop a n v w)"
| "write_ref NoThis n v w = Raised TypeError w"

fun eval_expr :: "handler \<Rightarrow> ref \<Rightarrow> expr \<Rightarrow> world \<Rightarrow> outcome" where
  "eval_expr h this (Const v) w = Returned v w"
| "eval_expr h this (This n) w = read_ref h this n w"
| "eval_expr h this (Wrapper n) w = read_ref h (get w) n w"

fun exec :: "handler \<Rightarrow> ref \<Rightarrow> stmt list \<Rightarrow> world \<Rightarrow> outcome" where
  "exec h this [] w = Returned Undefined w"
| "exec h this (Eval e # ss) w =
     (case eval_expr h this e w of
        OutOfFuel \<Rightarrow> OutOfFuel
      | Raised x w' \<Rightarrow> Raised x w'
      | Returned v w' \<Rightarrow> exec h this ss w')"
| "exec h this (Ret e # ss) w = eval_expr h this e w"
| "exec h this (Put n v # ss) w =
     (case write_ref this n v w of
        OutOfFuel \<Rightarrow> OutOfFuel
      | Raised x w' \<Rightarrow> Raised x w'
      | Returned u w' \<Rightarrow> exec h this ss w')"
| "exec h this (Seek f n # ss) w = exec h this ss (seek f n w)"
| "exec h this (Throw msg # ss) w = Raised (Thrown msg) w"

text \<open>
  Fuel is the remaining call depth: a body entered at depth \<open>Suc k\<close> runs its nested
  calls at depth \<open>k\<close>, and at depth \<open>0\<close> nothing can be entered.
\<close>

primrec run :: "nat \<Rightarrow> handler" where
  "run 0 = (\<lambda>this ss w. OutOfFuel)"
| "run (Suc k) = exec (run k)"

text \<open>
  A method call \<^verbatim>\<open>wrapper.m(args)\<close>: the member is read through the \<^verbatim>\<open>get\<close> trap and the
  function it yields is called with \<^verbatim>\<open>this\<close> bound to the wrapper.
\<close>

definition call_member :: "handler \<Rightarrow> addr \<Rightarrow> name \<Rightarrow> val list \<Rightarrow> world \<Rightarrow> outcome" where
  "call_member h target m args w =
     (case get_trap h target m w of
        OutOfFuel \<Rightarrow> OutOfFuel
      | Raised e w' \<Rightarrow> Raised e w'
      | Returned f w' \<Rightarrow>
          (case f of Fn body \<Rightarrow> h (Prx target) body w' | _ \<Rightarrow> Raised TypeError w'))"

subsection \<open>Vocabulary for the statements\<close>

text \<open>
  The entry that \<^verbatim>\<open>load\<close> adds to the invocation log: the load method is called under
  its key, with the registered arguments, while the file stands at the start position.
\<close>

definition load_entry :: "world \<Rightarrow> name \<times> val list \<times> int" where
  "load_entry w = (key_of (loadMethod (lz w)), loadArgs (lz w), startPos (lz w))"

text \<open>
  The world in which the body of the load method starts when the \<^verbatim>\<open>get\<close> trap triggers
  a load for the member \<open>n\<close>: the console line is written, the file is at the start
  position, the invocation is logged.
\<close>

definition entered :: "name \<Rightarrow> world \<Rightarrow> world" where
  "entered n w =
     (let w1 = seek (file_ref (lz w)) (startPos (lz w)) (announce ''getting'' n w)
      in w1\<lparr>calls := calls w1 @ [load_entry w1]\<rparr>)"

text \<open>What \<^verbatim>\<open>load\<close> does after the call has returned (lines 99-100).\<close>

definition finished :: "int \<Rightarrow> world \<Rightarrow> world" where
  "finished origPos w2 =
     (let w3 = seek (file_ref (lz w2)) origPos w2 in w3\<lparr>lz := (lz w3)\<lparr>loaded := True\<rparr>\<rparr>)"

text \<open>
  A body is quiet for a pass-through list when every read it makes through the wrapper
  is of a name on that list. Reads and writes on \<^verbatim>\<open>this\<close> are not restricted.
\<close>

fun quiet_expr :: "name list \<Rightarrow> expr \<Rightarrow> bool" where
  "quiet_expr ex (Wrapper n) = array_includes ex n"
| "quiet_expr ex (This n) = True"
| "quiet_expr ex (Const v) = True"

fun quiet_stmt :: "name list \<Rightarrow> stmt \<Rightarrow> bool" where
  "quiet_stmt ex (Eval e) = quiet_expr ex e"
| "quiet_stmt ex (Ret e) = quiet_expr ex e"
| "quiet_stmt ex (Put n v) = True"
| "quiet_stmt ex (Seek f n) = True"
| "quiet_stmt ex (Throw msg) = True"

definition quiet :: "name list \<Rightarrow> stmt list \<Rightarrow> bool" where
  "quiet ex ss = list_all (quiet_stmt ex) ss"

definition is_fn :: "val \<Rightarrow> bool" where
  "is_fn v = (case v of Fn body \<Rightarrow> True | _ \<Rightarrow> False)"

text \<open>The next access of a caller that goes on after the previous one, whatever its outcome.\<close>

fun then_get :: "handler \<Rightarrow> addr \<Rightarrow> name \<Rightarrow> outcome \<Rightarrow> outcome" where
  "then_get h t n OutOfFuel = OutOfFuel"
| "then_get h t n (Raised e w) = get_trap h t n w"
| "then_get h t n (Returned v w) = get_trap h t n w"

text \<open>Two states of the instance that agree on every field but the flag.\<close>

definition same_config :: "lazy_execute \<Rightarrow> lazy_execute \<Rightarrow> bool" where
  "same_config a b \<longleftrightarrow>
     obj b = obj a \<and> file_ref b = file_ref a \<and> startPos b = startPos a \<and>
     loadMethod b = loadMethod a \<and> loadArgs b = loadArgs a \<and> passthru b = passthru a"

text \<open>
  The relation between the world before and after any piece of running code: the
  instance changes in its flag at most, the flag never goes back, a loaded instance makes
  no further invocation and writes no further console line, and the log only grows, by
  entries of the load method.
\<close>

definition evolves :: "world \<Rightarrow> world \<Rightarrow> bool" where
  "evolves w w' \<longleftrightarrow>
     same_config (lz w) (lz w') \<and>
     (loaded (lz w) \<longrightarrow> loaded (lz w') \<and> calls w' = calls w \<and> console w' = console w) \<and>
     take (length (calls w)) (calls w') = calls w \<and>
     list_all (\<lambda>e. e = load_entry w) (drop (length (calls w)) (calls w'))"

definition good :: "handler \<Rightarrow> bool" where
  "good h \<longleftrightarrow> (\<forall>this ss w w'. world_of (h this ss w) = Some w' \<longrightarrow> evolves w w')"

subsection \<open>A concrete scene\<close>

text \<open>
  The scenario of the specification's section 8: the file 0 stands at 100 when the
  instance is built over the object 1; the file has moved on to 500 (what the eager
  \<^verbatim>\<open>skip\<close> does, see \<open>now_skip\<close> below) by the time of the first access; \<^verbatim>\<open>parse\<close> is
  registered for later; \<^verbatim>\<open>width\<close> and \<^verbatim>\<open>height\<close> are passed through.
\<close>

definition preview :: object where
  "preview = \<lparr>props = [''width'' \<mapsto> Num 64, ''height'' \<mapsto> Num 48,
                        ''skip'' \<mapsto> Fn [Seek 0 500],
                        ''parse'' \<mapsto> Fn [Seek 0 300, Put ''data'' (Num 7), Eval (This ''width'')],
                        ''pixels'' \<mapsto> Fn [Ret (This ''data'')]],
              call_body = None\<rparr>"

definition blank :: object where
  "blank = \<lparr>props = Map.empty, call_body = None\<rparr>"

definition world0 :: world where
  "world0 = \<lparr>lz = \<lparr>obj = 0, file_ref = 0, startPos = 0, loaded = False, loadMethod = None,
                    loadArgs = [], passthru = []\<rparr>,
             heap = (\<lambda>a. if a = 1 then preview else blank),
             files = (\<lambda>f. 100), console = [], calls = []\<rparr>"

definition ready :: world where
  "ready = ignore [''width'', ''height'']
             (later ''parse'' [] (seek 0 500 (new_LazyExecute 1 0 world0)))"

text \<open>The world when \<^verbatim>\<open>parse\<close> has run for a first access to \<^verbatim>\<open>pixels\<close>.\<close>

definition parsed :: world where
  "parsed = put_prop 1 ''data'' (Num 7) (seek 0 300 (entered ''pixels'' ready))"

text \<open>The same scene with another body under \<^verbatim>\<open>parse\<close>, and with no method registered.\<close>

definition with_parse :: "stmt list \<Rightarrow> world" where
  "with_parse body = put_prop 1 ''parse'' (Fn body) ready"

definition unregistered :: world where
  "unregistered = ignore [''width'', ''height''] (seek 0 500 (new_LazyExecute 1 0 world0))"

text \<open>A target that is itself a function returning 7, at address 2.\<close>

definition seven :: object where
  "seven = \<lparr>props = Map.empty, call_body = Some [Ret (Const (Num 7))]\<rparr>"

definition fn_fresh :: world where
  "fn_fresh = later ''parse'' [] (new_LazyExecute 2 0 (world0\<lparr>heap := (heap world0)(2 := seven)\<rparr>))"

section \<open>Properties of the model\<close>

subsection \<open>Elementary facts\<close>

lemma array_includes_set: "array_includes xs n \<longleftrightarrow> n \<in> set xs"
  by (induction xs) auto

lemma evolves_refl: "evolves w w"
  by (simp add: evolves_def same_config_def)

lemma grows_by:
  "take (length a) b = a \<and> list_all P (drop (length a) b) \<longleftrightarrow> (\<exists>new. b = a @ new \<and> list_all P new)"
  by (metis append_eq_conv_conj)

lemma load_entry_cong:
  "same_config (lz w) (lz w') \<Longrightarrow> load_entry w' = load_entry w"
  by (simp add: load_entry_def same_config_def)

lemma same_config_eq:
  "same_config a b \<Longrightarrow> loaded b = loaded a \<Longrightarrow> b = a"
  by (simp add: same_config_def)

lemma same_config_flag:
  "same_config a b \<Longrightarrow> b\<lparr>loaded := x\<rparr> = a\<lparr>loaded := x\<rparr>"
  by (simp add: same_config_def)

lemma evolves_trans:
  assumes "evolves w w'" and "evolves w' w''"
  shows "evolves w w''"
proof -
  from assms(1) have l1: "same_config (lz w) (lz w')"
    and k1: "loaded (lz w) \<longrightarrow> loaded (lz w') \<and> calls w' = calls w \<and> console w' = console w"
    by (simp_all add: evolves_def)
  from assms(2) have l2: "same_config (lz w') (lz w'')"
    and k2: "loaded (lz w') \<longrightarrow> loaded (lz w'') \<and> calls w'' = calls w' \<and> console w'' = console w'"
    by (simp_all add: evolves_def)
  from assms(1) obtain n1 where n1: "calls w' = calls w @ n1" "list_all (\<lambda>e. e = load_entry w) n1"
    unfolding evolves_def grows_by by blast
  from assms(2) obtain n2 where n2: "calls w'' = calls w' @ n2" "list_all (\<lambda>e. e = load_entry w') n2"
    unfolding evolves_def grows_by by blast
  have same: "load_entry w' = load_entry w" using l1 by (rule load_entry_cong)
  have a: "same_config (lz w) (lz w'')"
    using l1 l2 by (simp add: same_config_def)
  have b: "loaded (lz w) \<longrightarrow> loaded (lz w'') \<and> calls w'' = calls w \<and> console w'' = console w"
    using k1 k2 by simp
  have "calls w'' = calls w @ (n1 @ n2) \<and> list_all (\<lambda>e. e = load_entry w) (n1 @ n2)"
    using n1 n2 same by simp
  then have c: "take (length (calls w)) (calls w'') = calls w \<and>
      list_all (\<lambda>e. e = load_entry w) (drop (length (calls w)) (calls w''))"
    unfolding grows_by by blast
  from a b c show ?thesis by (simp add: evolves_def)
qed

lemma lz_seek: "lz (seek f n w) = lz w"
  by (simp add: seek_def)

lemma evolves_seek: "evolves w (seek f n w)"
  by (simp add: evolves_def same_config_def seek_def)

lemma evolves_put: "evolves w (put_prop a n v w)"
  by (simp add: evolves_def same_config_def put_prop_def)

lemma evolves_entered: "\<not> loaded (lz w) \<Longrightarrow> evolves w (entered n w)"
  by (simp add: evolves_def same_config_def entered_def Let_def seek_def announce_def load_entry_def)

lemma evolves_finished: "evolves w2 (finished p w2)"
  by (simp add: evolves_def same_config_def finished_def Let_def seek_def)

subsection \<open>The trap, unfolded along its three ways out\<close>

lemma load_unfold:
  "load h w =
     (case get_prop (heap w (obj (lz w))) (key_of (loadMethod (lz w))) of
        Fn body \<Rightarrow>
          (let w1 = seek (file_ref (lz w)) (startPos (lz w)) w
           in case h (Obj (obj (lz w))) body (w1\<lparr>calls := calls w1 @ [load_entry w1]\<rparr>) of
                OutOfFuel \<Rightarrow> OutOfFuel
              | Raised e w2 \<Rightarrow> Raised e w2
              | Returned r w2 \<Rightarrow> Returned Undefined (finished (tell (file_ref (lz w)) w) w2))
      | _ \<Rightarrow> Raised TypeError (seek (file_ref (lz w)) (startPos (lz w)) w))"
  by (simp add: load_def apply_method_def finished_def load_entry_def Let_def seek_def tell_def
      split: val.splits outcome.splits)

lemma get_trap_forward:
  "loaded (lz w) \<or> array_includes (passthru (lz w)) n \<Longrightarrow>
   get_trap h t n w = Returned (get_prop (heap w t) n) w"
  by (auto simp: get_trap_def)

lemma get_trap_returns:
  assumes "\<not> loaded (lz w)" and "\<not> array_includes (passthru (lz w)) n"
    and "get_prop (heap w (obj (lz w))) (key_of (loadMethod (lz w))) = Fn body"
    and "h (Obj (obj (lz w))) body (entered n w) = Returned r w2"
  shows "get_trap h t n w =
     Returned (get_prop (heap (finished (tell (file_ref (lz w)) w) w2) t) n)
              (finished (tell (file_ref (lz w)) w) w2)"
  using assms
  by (simp add: get_trap_def load_unfold entered_def Let_def announce_def tell_def seek_def)

lemma get_trap_raises:
  assumes "\<not> loaded (lz w)" and "\<not> array_includes (passthru (lz w)) n"
    and "get_prop (heap w (obj (lz w))) (key_of (loadMethod (lz w))) = Fn body"
    and "h (Obj (obj (lz w))) body (entered n w) = Raised e w2"
  shows "get_trap h t n w = Raised e w2"
  using assms
  by (simp add: get_trap_def load_unfold entered_def Let_def announce_def tell_def seek_def)

lemma get_trap_no_method:
  assumes "\<not> loaded (lz w)" and "\<not> array_includes (passthru (lz w)) n"
    and "\<not> is_fn (get_prop (heap w (obj (lz w))) (key_of (loadMethod (lz w))))"
  shows "get_trap h t n w =
     Raised TypeError (seek (file_ref (lz w)) (startPos (lz w)) (announce ''getting'' n w))"
  using assms
  by (simp add: get_trap_def load_unfold is_fn_def announce_def seek_def split: val.splits)

subsection \<open>Every run evolves the world\<close>

lemma load_evolves:
  assumes "good h" and "world_of (load h w) = Some w'"
  shows "same_config (lz w) (lz w')"
    and "\<not> loaded (lz w) \<Longrightarrow> evolves w w'"
proof -
  let ?w1 = "seek (file_ref (lz w)) (startPos (lz w)) w"
  let ?w1' = "?w1\<lparr>calls := calls ?w1 @ [load_entry ?w1]\<rparr>"
  have s1: "\<not> loaded (lz w) \<Longrightarrow> evolves w ?w1'"
    by (simp add: evolves_def same_config_def seek_def load_entry_def)
  have lz1: "lz ?w1' = lz w" by (simp add: seek_def)
  have "same_config (lz w) (lz w') \<and> (\<not> loaded (lz w) \<longrightarrow> evolves w w')"
  proof (cases "get_prop (heap w (obj (lz w))) (key_of (loadMethod (lz w)))")
    case (Fn body)
    let ?r = "h (Obj (obj (lz w))) body ?w1'"
    show ?thesis
    proof (cases ?r)
      case OutOfFuel
      with Fn assms(2) show ?thesis by (simp add: load_unfold Let_def)
    next
      case (Raised e w2)
      with Fn assms(2) have w': "w' = w2" by (simp add: load_unfold Let_def)
      from Raised have "world_of ?r = Some w2" by simp
      with assms(1) have e: "evolves ?w1' w2" by (auto simp: good_def)
      then have "same_config (lz ?w1') (lz w2)" by (simp add: evolves_def)
      then have c: "same_config (lz w) (lz w')" by (simp only: lz1 w')
      have "evolves w w'" if "\<not> loaded (lz w)"
        using s1[OF that] e unfolding w' by (rule evolves_trans)
      with c show ?thesis by simp
    next
      case (Returned r w2)
      let ?w3 = "finished (tell (file_ref (lz w)) w) w2"
      from Returned Fn assms(2) have w': "w' = ?w3" by (simp add: load_unfold Let_def)
      from Returned have "world_of ?r = Some w2" by simp
      with assms(1) have e: "evolves ?w1' w2" by (auto simp: good_def)
      have "evolves w2 w'" unfolding w' by (rule evolves_finished)
      with e have e': "evolves ?w1' w'" by (rule evolves_trans)
      then have "same_config (lz ?w1') (lz w')" by (simp add: evolves_def)
      then have c: "same_config (lz w) (lz w')" by (simp only: lz1)
      have "evolves w w'" if "\<not> loaded (lz w)"
        using s1[OF that] e' by (rule evolves_trans)
      with c show ?thesis by simp
    qed
  qed (use assms(2) in \<open>auto simp: load_unfold evolves_seek lz_seek same_config_def\<close>)
  then show "same_config (lz w) (lz w')"
    and "\<not> loaded (lz w) \<Longrightarrow> evolves w w'" by simp_all
qed

lemma get_trap_evolves:
  assumes "good h" and "world_of (get_trap h t n w) = Some w'"
  shows "evolves w w'"
proof (cases "\<not> loaded (lz w) \<and> \<not> array_includes (passthru (lz w)) n")
  case True
  let ?w0 = "announce ''getting'' n w"
  have nl: "\<not> loaded (lz ?w0)" using True by (simp add: announce_def)
  from assms(2) True have "world_of (load h ?w0) = Some w'"
    by (simp add: get_trap_def split: outcome.splits)
  with assms(1) have "evolves ?w0 w'" using nl by (rule load_evolves(2))
  moreover have "evolves w ?w0" using True by (simp add: evolves_def same_config_def announce_def)
  ultimately show ?thesis by (rule evolves_trans[rotated])
next
  case False
  with assms(2) have "w' = w" by (auto simp: get_trap_def)
  then show ?thesis by (simp add: evolves_refl)
qed

lemma read_ref_evolves:
  "good h \<Longrightarrow> world_of (read_ref h r n w) = Some w' \<Longrightarrow> evolves w w'"
  by (cases r) (auto simp: evolves_refl dest: get_trap_evolves)

lemma write_ref_evolves:
  "world_of (write_ref r n v w) = Some w' \<Longrightarrow> evolves w w'"
  by (cases r) (auto simp: evolves_refl evolves_put)

lemma eval_expr_evolves:
  "good h \<Longrightarrow> world_of (eval_expr h this e w) = Some w' \<Longrightarrow> evolves w w'"
  by (cases e) (auto simp: evolves_refl dest: read_ref_evolves)

lemma exec_evolves:
  "good h \<Longrightarrow> world_of (exec h this ss w) = Some w' \<Longrightarrow> evolves w w'"
proof (induction h this ss w rule: exec.induct)
  case (1 h this w)
  then show ?case by (simp add: evolves_refl)
next
  case (2 h this e ss w)
  show ?case
  proof (cases "eval_expr h this e w")
    case OutOfFuel
    with 2 show ?thesis by simp
  next
    case (Raised x w1)
    then have "world_of (eval_expr h this e w) = Some w1" by simp
    with 2(2) have "evolves w w1" by (rule eval_expr_evolves)
    with 2(3) Raised show ?thesis by simp
  next
    case (Returned v w1)
    then have "world_of (eval_expr h this e w) = Some w1" by simp
    with 2(2) have "evolves w w1" by (rule eval_expr_evolves)
    moreover from 2 Returned have "evolves w1 w'" by simp
    ultimately show ?thesis by (rule evolves_trans)
  qed
next
  case (3 h this e ss w)
  then show ?case by (auto dest: eval_expr_evolves)
next
  case (4 h this n v ss w)
  show ?case
  proof (cases "write_ref this n v w")
    case OutOfFuel
    with 4 show ?thesis by simp
  next
    case (Raised x w1)
    then have "world_of (write_ref this n v w) = Some w1" by simp
    then have "evolves w w1" by (rule write_ref_evolves)
    with 4(3) Raised show ?thesis by simp
  next
    case (Returned u w1)
    then have "world_of (write_ref this n v w) = Some w1" by simp
    then have "evolves w w1" by (rule write_ref_evolves)
    moreover from 4 Returned have "evolves w1 w'" by simp
    ultimately show ?thesis by (rule evolves_trans)
  qed
next
  case (5 h this f n ss w)
  then have "evolves (seek f n w) w'" by simp
  with evolves_seek show ?case by (rule evolves_trans)
next
  case (6 h this msg ss w)
  then show ?case by (simp add: evolves_refl)
qed

lemma run_good: "good (run k)"
proof (induction k)
  case 0
  show ?case by (simp add: good_def)
next
  case (Suc k)
  then show ?case unfolding good_def by (auto dest: exec_evolves[OF Suc])
qed


lemma load_returns:
  assumes "good h" and "load h w = Returned r w'"
  shows "lz w' = (lz w)\<lparr>loaded := True\<rparr>"
    and "tell (file_ref (lz w)) w' = tell (file_ref (lz w)) w"
proof -
  let ?w1 = "seek (file_ref (lz w)) (startPos (lz w)) w"
  let ?w1' = "?w1\<lparr>calls := calls ?w1 @ [load_entry ?w1]\<rparr>"
  from assms(2) obtain body r2 w2
    where run: "h (Obj (obj (lz w))) body ?w1' = Returned r2 w2"
      and w': "w' = finished (tell (file_ref (lz w)) w) w2"
    by (auto simp: load_unfold Let_def split: val.splits outcome.splits)
  from run have "world_of (h (Obj (obj (lz w))) body ?w1') = Some w2" by simp
  with assms(1) have "evolves ?w1' w2" by (auto simp: good_def)
  then have "same_config (lz ?w1') (lz w2)" by (simp add: evolves_def)
  then have lz2: "same_config (lz w) (lz w2)" by (simp add: seek_def)
  show "lz w' = (lz w)\<lparr>loaded := True\<rparr>"
    unfolding w' using same_config_flag[OF lz2] by (simp add: finished_def Let_def seek_def)
  have "file_ref (lz w2) = file_ref (lz w)" using lz2 by (simp add: same_config_def)
  then show "tell (file_ref (lz w)) w' = tell (file_ref (lz w)) w"
    unfolding w' by (simp add: finished_def Let_def seek_def tell_def)
qed

subsection \<open>Quiet bodies\<close>

lemma quiet_eval_expr:
  "quiet_expr (passthru (lz w)) e \<Longrightarrow> \<exists>v. eval_expr h (Obj a) e w = Returned v w"
  by (cases e) (simp_all add: get_def get_trap_forward)

lemma quiet_exec:
  "quiet (passthru (lz w)) ss \<Longrightarrow>
   exec h (Obj a) ss w \<noteq> OutOfFuel \<and>
   (\<forall>w'. world_of (exec h (Obj a) ss w) = Some w' \<longrightarrow>
      lz w' = lz w \<and> calls w' = calls w \<and> console w' = console w)"
proof (induction ss arbitrary: w)
  case Nil
  show ?case by simp
next
  case (Cons s ss)
  from Cons.prems have qs: "quiet_stmt (passthru (lz w)) s" and qss: "quiet (passthru (lz w)) ss"
    by (simp_all add: quiet_def)
  note here = Cons.IH[OF qss]
  show ?case
  proof (cases s)
    case (Eval e)
    with qs have "quiet_expr (passthru (lz w)) e" by simp
    then obtain v where "eval_expr h (Obj a) e w = Returned v w"
      using quiet_eval_expr by blast
    then have eq: "exec h (Obj a) (s # ss) w = exec h (Obj a) ss w" by (simp add: Eval)
    show ?thesis unfolding eq by (rule here)
  next
    case (Ret e)
    with qs have "quiet_expr (passthru (lz w)) e" by simp
    then obtain v where "eval_expr h (Obj a) e w = Returned v w"
      using quiet_eval_expr by blast
    then have "exec h (Obj a) (s # ss) w = Returned v w" by (simp add: Ret)
    then show ?thesis by simp
  next
    case (Put n v)
    let ?w = "put_prop a n v w"
    have f: "lz ?w = lz w" "calls ?w = calls w" "console ?w = console w"
      by (simp_all add: put_prop_def)
    have "quiet (passthru (lz ?w)) ss" using qss by (simp only: f)
    note there = Cons.IH[OF this]
    have eq: "exec h (Obj a) (s # ss) w = exec h (Obj a) ss ?w" by (simp add: Put)
    show ?thesis unfolding eq using there unfolding f .
  next
    case (Seek f n)
    let ?w = "seek f n w"
    have f: "lz ?w = lz w" "calls ?w = calls w" "console ?w = console w"
      by (simp_all add: seek_def)
    have "quiet (passthru (lz ?w)) ss" using qss by (simp only: f)
    note there = Cons.IH[OF this]
    have eq: "exec h (Obj a) (s # ss) w = exec h (Obj a) ss ?w" by (simp add: Seek)
    show ?thesis unfolding eq using there unfolding f .
  next
    case (Throw msg)
    then show ?thesis by simp
  qed
qed

lemma quiet_body_frame:
  assumes "quiet (passthru (lz w)) body" and "world_of (exec h (Obj a) body (entered n w)) = Some w2"
  shows "lz w2 = lz w" and "calls w2 = calls w @ [load_entry w]"
proof -
  have l: "lz (entered n w) = lz w"
    by (simp add: entered_def Let_def seek_def announce_def)
  have c: "calls (entered n w) = calls w @ [load_entry w]"
    by (simp add: entered_def Let_def seek_def announce_def load_entry_def)
  from assms(1) have "quiet (passthru (lz (entered n w))) body" by (simp add: l)
  from quiet_exec[OF this] assms(2) l c
  show "lz w2 = lz w" and "calls w2 = calls w @ [load_entry w]" by auto
qed

lemma loaded_stays:
  assumes "loaded (lz w)" and "world_of (run k this ss w) = Some w'"
  shows "lz w' = lz w" and "calls w' = calls w"
proof -
  from run_good assms(2) have e: "evolves w w'" by (auto simp: good_def)
  with assms(1) show "calls w' = calls w" by (simp add: evolves_def)
  from e assms(1) have "loaded (lz w')" "same_config (lz w) (lz w')"
    by (simp_all add: evolves_def)
  with assms(1) show "lz w' = lz w" by (simp add: same_config_eq)
qed

lemmas class_defs = get_trap_def load_def apply_method_def announce_def seek_def tell_def
  get_prop_def key_of_def put_prop_def later_def ignore_def new_LazyExecute_def get_def
  entered_def finished_def load_entry_def is_fn_def quiet_def Let_def

lemmas scene_defs = ready_def parsed_def with_parse_def unregistered_def world0_def
  preview_def blank_def seven_def fn_fresh_def

lemma now_skip:
  "now (run (Suc 0)) ''skip'' [] (new_LazyExecute 1 0 world0) =
     Returned Undefined
       ((seek 0 500 (new_LazyExecute 1 0 world0))\<lparr>calls := [(''skip'', [], 100)]\<rparr>)"
  by (simp add: now_def class_defs scene_defs)

lemma ready_parse:
  "exec h (Obj 1) [Seek 0 300, Put ''data'' (Num 7), Eval (This ''width'')]
     (entered ''pixels'' ready) = Returned Undefined parsed"
  by (simp add: class_defs scene_defs)

lemma ready_pixels:
  "get_trap (run (Suc 0)) 1 ''pixels'' ready =
     Returned (Fn [Ret (This ''data'')]) (finished 500 parsed)"
  by (simp add: class_defs scene_defs)

lemma ready_load:
  "load (run (Suc 0)) ready =
     Returned Undefined (finished 500
       (put_prop 1 ''data'' (Num 7) (seek 0 300
          ((seek 0 100 ready)\<lparr>calls := [(''parse'', [], 100)]\<rparr>))))"
  by (simp add: class_defs scene_defs)

section \<open>The claims\<close>

text \<open>
  C4. When an access through the wrapper returns, the instance's file stands where it
  stood before the access, whatever seeks the load method made. This covers the
  triggered load (the only case in which the file moves at all).
\<close>

theorem load_restores_position:
  assumes "get_trap (run k) t n w = Returned v w'"
  shows "tell (file_ref (lz w)) w' = tell (file_ref (lz w)) w"
proof (cases "loaded (lz w) \<or> array_includes (passthru (lz w)) n")
  case True
  with assms show ?thesis by (simp add: get_trap_forward)
next
  case False
  let ?w0 = "announce ''getting'' n w"
  from False assms obtain r where "load (run k) ?w0 = Returned r w'"
    by (auto simp: get_trap_def split: outcome.splits)
  from load_returns(2)[OF run_good this] show ?thesis
    by (simp add: announce_def tell_def)
qed

theorem load_restores_position_witness:
  "get_trap (run (Suc 0)) 1 ''pixels'' ready =
     Returned (Fn [Ret (This ''data'')]) (finished 500 parsed) \<and>
   tell 0 parsed = 300 \<and>
   tell (file_ref (lz ready)) (finished 500 parsed) = 500 \<and>
   tell (file_ref (lz ready)) ready = 500"
  using load_restores_position[OF ready_pixels]
  by (simp add: ready_pixels) (simp add: class_defs scene_defs)

text \<open>
  C10. A load that returns changes one field of the instance, the flag: the start
  position, the registered method and arguments, the pass-through list and the two
  references are what they were. Nested loads started from inside the load method are
  included.
\<close>

theorem load_frame:
  assumes "load (run k) w = Returned r w'"
  shows "lz w' = (lz w)\<lparr>loaded := True\<rparr> \<and>
         startPos (lz w') = startPos (lz w) \<and> loadMethod (lz w') = loadMethod (lz w) \<and>
         loadArgs (lz w') = loadArgs (lz w) \<and> passthru (lz w') = passthru (lz w) \<and>
         obj (lz w') = obj (lz w) \<and> file_ref (lz w') = file_ref (lz w) \<and> loaded (lz w')"
proof -
  have "lz w' = (lz w)\<lparr>loaded := True\<rparr>"
    using run_good assms by (rule load_returns(1))
  then show ?thesis by simp
qed

theorem load_frame_witness:
  "load (run (Suc 0)) ready =
     Returned Undefined (finished 500
       (put_prop 1 ''data'' (Num 7) (seek 0 300
          ((seek 0 100 ready)\<lparr>calls := [(''parse'', [], 100)]\<rparr>)))) \<and>
   lz (finished 500 (put_prop 1 ''data'' (Num 7) (seek 0 300
          ((seek 0 100 ready)\<lparr>calls := [(''parse'', [], 100)]\<rparr>)))) =
     \<lparr>obj = 1, file_ref = 0, startPos = 100, loaded = True, loadMethod = Some ''parse'',
      loadArgs = [], passthru = [''width'', ''height'']\<rparr> \<and>
   lz ready =
     \<lparr>obj = 1, file_ref = 0, startPos = 100, loaded = False, loadMethod = Some ''parse'',
      loadArgs = [], passthru = [''width'', ''height'']\<rparr>"
  using load_frame[OF ready_load]
  by (simp add: ready_load) (simp add: class_defs scene_defs)

text \<open>
  C5. Every invocation made during an access is an invocation of the registered method
  with the registered arguments, made with the file at the position it had when the
  instance was constructed. The world of the access is any world whose instance is the
  configured one: the file may have been moved any number of times since.
\<close>

theorem deferred_operation_at_startPos:
  assumes "lz w = lz (ignore xs (later m args (new_LazyExecute ob fl w0)))"
    and "world_of (get_trap (run k) t n w) = Some w'"
  shows "take (length (calls w)) (calls w') = calls w \<and>
         list_all (\<lambda>e. e = (m, args, tell fl w0)) (drop (length (calls w)) (calls w'))"
proof -
  from run_good assms(2) have "evolves w w'" by (rule get_trap_evolves)
  moreover have "load_entry w = (m, args, tell fl w0)"
    by (simp add: load_entry_def assms(1) ignore_def later_def new_LazyExecute_def key_of_def)
  ultimately show ?thesis by (simp add: evolves_def)
qed

theorem deferred_operation_at_startPos_witness:
  "lz ready = lz (ignore [''width'', ''height''] (later ''parse'' [] (new_LazyExecute 1 0 world0))) \<and>
   world_of (get_trap (run (Suc 0)) 1 ''pixels'' ready) = Some (finished 500 parsed) \<and>
   tell 0 ready = 500 \<and> tell 0 world0 = 100 \<and>
   calls ready = [] \<and> calls (finished 500 parsed) = [(''parse'', [], 100)]"
proof -
  have a: "lz ready = lz (ignore [''width'', ''height''] (later ''parse'' [] (new_LazyExecute 1 0 world0)))"
    by (simp add: class_defs scene_defs)
  have b: "world_of (get_trap (run (Suc 0)) 1 ''pixels'' ready) = Some (finished 500 parsed)"
    by (simp only: ready_pixels world_of.simps)
  have c: "calls ready = []" by (simp add: class_defs scene_defs)
  have d: "tell 0 ready = 500 \<and> tell 0 world0 = 100" by (simp add: class_defs scene_defs)
  from deferred_operation_at_startPos[OF a b] c d
  have "calls (finished 500 parsed) = [(''parse'', [], 100)]"
    by (cases "calls (finished 500 parsed)") (auto simp: class_defs scene_defs)
  with a b c d show ?thesis by simp
qed

text \<open>
  C7. A read of a pass-through member is forwarded with the world untouched: no
  invocation, no seek, the flag as it was. So any sequence of such reads, written here as
  a script of reads through the wrapper, leaves the world as it found it. Membership in
  the list is equality with one of its elements.
\<close>

theorem exempt_access_no_load:
  "(array_includes (passthru (lz w)) n \<longleftrightarrow> (\<exists>x \<in> set (passthru (lz w)). x = n)) \<and>
   (array_includes (passthru (lz w)) n \<longrightarrow>
      get_trap h t n w = Returned (get_prop (heap w t) n) w) \<and>
   (list_all (array_includes (passthru (lz w))) ns \<longrightarrow>
      exec h this (map (\<lambda>m. Eval (Wrapper m)) ns) w = Returned Undefined w)"
proof -
  have "exec h this (map (\<lambda>m. Eval (Wrapper m)) ns) w = Returned Undefined w"
    if "list_all (array_includes (passthru (lz w))) ns"
    using that by (induction ns) (simp_all add: get_def get_trap_forward)
  then show ?thesis by (simp add: array_includes_set get_trap_forward)
qed

theorem exempt_access_no_load_witness:
  "array_includes (passthru (lz ready)) ''width'' \<and>
   \<not> array_includes (passthru (lz ready)) ''widt'' \<and>
   \<not> array_includes (passthru (lz ready)) ''Width'' \<and>
   get_trap (run 0) 1 ''width'' ready = Returned (Num 64) ready \<and>
   list_all (array_includes (passthru (lz ready))) [''width'', ''height'', ''width''] \<and>
   exec (run 0) NoThis (map (\<lambda>m. Eval (Wrapper m)) [''width'', ''height'', ''width'']) ready =
     Returned Undefined ready \<and>
   \<not> loaded (lz ready) \<and> calls ready = []"
proof -
  have a: "array_includes (passthru (lz ready)) ''width''"
    and b: "list_all (array_includes (passthru (lz ready))) [''width'', ''height'', ''width'']"
    by (simp_all add: class_defs scene_defs)
  note c = exempt_access_no_load[of ready "''width''" "run 0" 1 "[''width'', ''height'', ''width'']" NoThis]
  from c a have "get_trap (run 0) 1 ''width'' ready = Returned (get_prop (heap ready 1) ''width'') ready"
    by blast
  moreover from c b have "exec (run 0) NoThis (map (\<lambda>m. Eval (Wrapper m)) [''width'', ''height'', ''width'']) ready =
     Returned Undefined ready" by blast
  ultimately show ?thesis using a b by (simp add: class_defs scene_defs)
qed

lemma reentry_diverges:
  assumes "\<not> loaded (lz w)" and "\<not> array_includes (passthru (lz w)) n"
    and "get_prop (heap w (obj (lz w))) (key_of (loadMethod (lz w))) = Fn (Eval (Wrapper x) # rest)"
    and "\<not> array_includes (passthru (lz w)) x"
  shows "get_trap (run k) t n w = OutOfFuel"
  using assms
proof (induction k arbitrary: w n t)
  case 0
  then show ?case by (simp add: get_trap_def load_unfold Let_def announce_def)
next
  case (Suc k)
  let ?u = "entered n w"
  have u: "\<not> loaded (lz ?u)" "\<not> array_includes (passthru (lz ?u)) x"
    "get_prop (heap ?u (obj (lz ?u))) (key_of (loadMethod (lz ?u))) = Fn (Eval (Wrapper x) # rest)"
    using Suc.prems by (simp_all add: entered_def Let_def seek_def announce_def)
  have "get_trap (run k) (obj (lz ?u)) x ?u = OutOfFuel"
    using u(1,2,3,2) by (rule Suc.IH)
  then have "run (Suc k) (Obj (obj (lz w))) (Eval (Wrapper x) # rest) ?u = OutOfFuel"
    by (simp add: get_def)
  with Suc.prems show ?case
    by (simp add: get_trap_def load_unfold entered_def Let_def announce_def seek_def)
qed

text \<open>
  C1, as the code has it. The flag is false when the body of the load method starts.
  When the body returns, \<^verbatim>\<open>load\<close> moves the file back and only then sets the flag, and
  the triggering read returns. A body whose reads go to \<^verbatim>\<open>this\<close>, or through the wrapper
  to pass-through names only, ends with the flag still false and with its own invocation
  as the single new entry of the log. A read through the wrapper made from inside any
  body, of a name that is not passed through, in a world where the flag is false, runs
  the load again. A body that starts with such a read never finishes: the read that
  triggered the load has no result at any depth.
\<close>

theorem flag_set_after_deferred_operation:
  assumes "\<not> loaded (lz w)" and "\<not> array_includes (passthru (lz w)) n"
    and "get_prop (heap w (obj (lz w))) (key_of (loadMethod (lz w))) = Fn body"
  shows "\<not> loaded (lz (entered n w)) \<and>
    (exec h (Obj (obj (lz w))) body (entered n w) = Returned r w2 \<longrightarrow>
       get_trap (exec h) t n w =
         Returned (get_prop (heap (finished (tell (file_ref (lz w)) w) w2) t) n)
                  (finished (tell (file_ref (lz w)) w) w2) \<and>
       loaded (lz (finished (tell (file_ref (lz w)) w) w2)) \<and>
       (quiet (passthru (lz w)) body \<longrightarrow>
          \<not> loaded (lz w2) \<and> calls w2 = calls w @ [load_entry w] \<and>
          calls (finished (tell (file_ref (lz w)) w) w2) = calls w @ [load_entry w])) \<and>
    (\<forall>u x this. \<not> loaded (lz u) \<longrightarrow> \<not> array_includes (passthru (lz u)) x \<longrightarrow>
       eval_expr h this (Wrapper x) u =
         (case load h (announce ''getting'' x u) of
            OutOfFuel \<Rightarrow> OutOfFuel
          | Raised e w' \<Rightarrow> Raised e w'
          | Returned v w' \<Rightarrow> Returned (get_prop (heap w' (obj (lz u))) x) w')) \<and>
    (\<forall>x rest k. body = Eval (Wrapper x) # rest \<longrightarrow> \<not> array_includes (passthru (lz w)) x \<longrightarrow>
       get_trap (run k) t n w = OutOfFuel)"
proof (intro conjI impI allI)
  show "\<not> loaded (lz (entered n w))"
    using assms(1) by (simp add: entered_def Let_def seek_def announce_def)
next
  assume r: "exec h (Obj (obj (lz w))) body (entered n w) = Returned r w2"
  show "get_trap (exec h) t n w =
         Returned (get_prop (heap (finished (tell (file_ref (lz w)) w) w2) t) n)
                  (finished (tell (file_ref (lz w)) w) w2)"
    using assms r by (rule get_trap_returns)
  show "loaded (lz (finished (tell (file_ref (lz w)) w) w2))"
    by (simp add: finished_def Let_def)
  assume q: "quiet (passthru (lz w)) body"
  from r have "world_of (exec h (Obj (obj (lz w))) body (entered n w)) = Some w2" by simp
  note fr = quiet_body_frame[OF q this]
  show "\<not> loaded (lz w2)" using fr(1) assms(1) by simp
  show c: "calls w2 = calls w @ [load_entry w]" by (rule fr(2))
  show "calls (finished (tell (file_ref (lz w)) w) w2) = calls w @ [load_entry w]"
    using c by (simp add: finished_def Let_def seek_def)
next
  fix u :: world and x this
  assume "\<not> loaded (lz u)" and "\<not> array_includes (passthru (lz u)) x"
  then show "eval_expr h this (Wrapper x) u =
         (case load h (announce ''getting'' x u) of
            OutOfFuel \<Rightarrow> OutOfFuel
          | Raised e w' \<Rightarrow> Raised e w'
          | Returned v w' \<Rightarrow> Returned (get_prop (heap w' (obj (lz u))) x) w')"
    by (simp add: get_def get_trap_def)
next
  fix x rest k
  assume "body = Eval (Wrapper x) # rest" and "\<not> array_includes (passthru (lz w)) x"
  with assms show "get_trap (run k) t n w = OutOfFuel"
    by (simp add: reentry_diverges)
qed

theorem flag_set_after_deferred_operation_witness:
  "\<not> loaded (lz ready) \<and> \<not> array_includes (passthru (lz ready)) ''pixels'' \<and>
   get_prop (heap ready (obj (lz ready))) (key_of (loadMethod (lz ready))) =
     Fn [Seek 0 300, Put ''data'' (Num 7), Eval (This ''width'')] \<and>
   \<not> loaded (lz (entered ''pixels'' ready)) \<and>
   quiet (passthru (lz ready)) [Seek 0 300, Put ''data'' (Num 7), Eval (This ''width'')] \<and>
   exec (run 0) (Obj (obj (lz ready))) [Seek 0 300, Put ''data'' (Num 7), Eval (This ''width'')]
     (entered ''pixels'' ready) = Returned Undefined parsed \<and>
   \<not> loaded (lz parsed) \<and> calls parsed = [(''parse'', [], 100)] \<and>
   get_trap (run (Suc 0)) 1 ''pixels'' ready =
     Returned (Fn [Ret (This ''data'')]) (finished 500 parsed) \<and>
   loaded (lz (finished 500 parsed)) \<and> calls (finished 500 parsed) = [(''parse'', [], 100)] \<and>
   \<not> array_includes (passthru (lz parsed)) ''data'' \<and>
   eval_expr (run (Suc 0)) (Obj 1) (Wrapper ''data'') parsed =
     Returned (Num 7)
       (finished 300 (put_prop 1 ''data'' (Num 7) (seek 0 300 (entered ''data'' parsed)))) \<and>
   calls (finished 300 (put_prop 1 ''data'' (Num 7) (seek 0 300 (entered ''data'' parsed)))) =
     [(''parse'', [], 100), (''parse'', [], 100)] \<and>
   \<not> loaded (lz (with_parse [Eval (Wrapper ''data'')])) \<and>
   \<not> array_includes (passthru (lz (with_parse [Eval (Wrapper ''data'')]))) ''data'' \<and>
   get_trap (run 5) 1 ''pixels'' (with_parse [Eval (Wrapper ''data'')]) = OutOfFuel"
proof -
  let ?body = "[Seek 0 300, Put ''data'' (Num 7), Eval (This ''width'')]"
  let ?v = "with_parse [Eval (Wrapper ''data'')]"
  let ?n = "finished 300 (put_prop 1 ''data'' (Num 7) (seek 0 300 (entered ''data'' parsed)))"
  have a: "\<not> loaded (lz ready)" and b: "\<not> array_includes (passthru (lz ready)) ''pixels''"
    and c: "get_prop (heap ready (obj (lz ready))) (key_of (loadMethod (lz ready))) = Fn ?body"
    and d: "quiet (passthru (lz ready)) ?body"
    by (simp_all add: class_defs scene_defs)
  have e: "exec (run 0) (Obj (obj (lz ready))) ?body (entered ''pixels'' ready) = Returned Undefined parsed"
    using ready_parse[of "run 0"] by (simp add: class_defs scene_defs)
  have a': "\<not> loaded (lz ?v)" and b': "\<not> array_includes (passthru (lz ?v)) ''pixels''"
    and c': "get_prop (heap ?v (obj (lz ?v))) (key_of (loadMethod (lz ?v))) = Fn [Eval (Wrapper ''data'')]"
    and d': "\<not> array_includes (passthru (lz ?v)) ''data''"
    by (simp_all add: class_defs scene_defs)
  have f: "tell (file_ref (lz ready)) ready = 500" "load_entry ready = (''parse'', [], 100)"
    "calls ready = []"
    "get_prop (heap (finished 500 parsed) 1) ''pixels'' = Fn [Ret (This ''data'')]"
    by (simp_all add: class_defs scene_defs)
  have u: "\<not> loaded (lz parsed)" "\<not> array_includes (passthru (lz parsed)) ''data''"
    and cn: "calls ?n = [(''parse'', [], 100), (''parse'', [], 100)]"
    by (simp_all add: class_defs scene_defs)
  have ld: "(case load (run (Suc 0)) (announce ''getting'' ''data'' parsed) of
            OutOfFuel \<Rightarrow> OutOfFuel
          | Raised e w' \<Rightarrow> Raised e w'
          | Returned v w' \<Rightarrow> Returned (get_prop (heap w' (obj (lz parsed))) ''data'') w') =
        Returned (Num 7) ?n"
    by (simp add: class_defs scene_defs)
  note t1 = flag_set_after_deferred_operation[OF a b c, of "run 0" Undefined parsed 1]
  note t1' = t1[unfolded f append_Nil, folded run.simps(2)]
  note t2 = flag_set_after_deferred_operation[OF a' b' c', of "run 0" Undefined parsed 1]
  note t3 = flag_set_after_deferred_operation[OF a b c, of "run (Suc 0)" Undefined parsed 1]
  from t1' have g0: "\<not> loaded (lz (entered ''pixels'' ready))" by blast
  from t1' d e[folded run.simps(2)] have g: "\<not> loaded (lz parsed) \<and> calls parsed = [(''parse'', [], 100)] \<and>
    get_trap (run (Suc 0)) 1 ''pixels'' ready =
       Returned (Fn [Ret (This ''data'')]) (finished 500 parsed) \<and>
    loaded (lz (finished 500 parsed)) \<and> calls (finished 500 parsed) = [(''parse'', [], 100)]"
    by blast
  from t3 u have "eval_expr (run (Suc 0)) (Obj 1) (Wrapper ''data'') parsed =
         (case load (run (Suc 0)) (announce ''getting'' ''data'' parsed) of
            OutOfFuel \<Rightarrow> OutOfFuel
          | Raised e w' \<Rightarrow> Raised e w'
          | Returned v w' \<Rightarrow> Returned (get_prop (heap w' (obj (lz parsed))) ''data'') w')"
    by blast
  then have i: "eval_expr (run (Suc 0)) (Obj 1) (Wrapper ''data'') parsed = Returned (Num 7) ?n"
    by (simp only: ld)
  from t2 d' have h: "get_trap (run 5) 1 ''pixels'' ?v = OutOfFuel" by blast
  from a b c g0 d e g u(2) i cn a' d' h show ?thesis by blast
qed

text \<open>
  C1 as stated fails: a load method that reads a member through the wrapper while it
  runs finds the flag still false, so the load is triggered a second time and the method
  registered under \<^verbatim>\<open>parse\<close> is invoked a second time. (Here the method replaces itself
  by an empty one first, so that the nesting ends.)
\<close>

theorem reentrant_access_reloads:
  "map_option calls (world_of (get_trap (run (Suc (Suc 0))) 1 ''pixels''
      (with_parse [Put ''parse'' (Fn []), Eval (Wrapper ''data'')]))) =
     Some [(''parse'', [], 100), (''parse'', [], 100)] \<and>
   map_option console (world_of (get_trap (run (Suc (Suc 0))) 1 ''pixels''
      (with_parse [Put ''parse'' (Fn []), Eval (Wrapper ''data'')]))) =
     Some [''LazyExecute: getting pixels. Loading!'', ''LazyExecute: getting data. Loading!'']"
  by (simp add: class_defs scene_defs)

lemma call_member_loaded:
  assumes "loaded (lz w)" and "world_of (call_member (run j) t m args w) = Some w'"
  shows "calls w' = calls w \<and> lz w' = lz w"
proof -
  have g: "get_trap (run j) t m w = Returned (get_prop (heap w t) m) w"
    using assms(1) by (simp add: get_trap_forward)
  show ?thesis
  proof (cases "get_prop (heap w t) m")
    case (Fn b)
    with g assms(2) have "world_of (run j (Prx t) b w) = Some w'"
      by (simp add: call_member_def)
    with assms(1) show ?thesis using loaded_stays by blast
  qed (use g assms(2) in \<open>simp_all add: call_member_def\<close>)
qed

text \<open>
  C6, as the code has it. When the load method is a function that returns and does not
  re-enter the wrapper (its reads through the wrapper, if any, are of pass-through
  names), the first read or call of a member that is not passed through invokes it
  exactly once, with the flag set afterwards; from then on every read is forwarded with
  the world untouched, and every call, with all it runs, adds no invocation.
\<close>

theorem load_once:
  assumes "\<not> loaded (lz w)" and "\<not> array_includes (passthru (lz w)) n"
    and "get_prop (heap w (obj (lz w))) (key_of (loadMethod (lz w))) = Fn body"
    and "quiet (passthru (lz w)) body"
    and "exec (run k) (Obj (obj (lz w))) body (entered n w) = Returned r w2"
    and "w3 = finished (tell (file_ref (lz w)) w) w2"
  shows "get_trap (run (Suc k)) t n w = Returned (get_prop (heap w3 t) n) w3 \<and>
         calls w3 = calls w @ [load_entry w] \<and> loaded (lz w3) \<and>
         (\<forall>w4. world_of (call_member (run (Suc k)) t n args w) = Some w4 \<longrightarrow>
                 calls w4 = calls w @ [load_entry w] \<and> loaded (lz w4)) \<and>
         (\<forall>h' t' n'. get_trap h' t' n' w3 = Returned (get_prop (heap w3 t') n') w3) \<and>
         (\<forall>j t' n' args' w4. world_of (call_member (run j) t' n' args' w3) = Some w4 \<longrightarrow>
                 calls w4 = calls w3 \<and> loaded (lz w4))"
proof -
  from assms(5) have r: "run (Suc k) (Obj (obj (lz w))) body (entered n w) = Returned r w2"
    by simp
  have g: "get_trap (run (Suc k)) t n w = Returned (get_prop (heap w3 t) n) w3"
    unfolding assms(6) using assms(1,2,3) r by (rule get_trap_returns)
  from assms(5) have "world_of (exec (run k) (Obj (obj (lz w))) body (entered n w)) = Some w2"
    by simp
  note fr = quiet_body_frame[OF assms(4) this]
  have c: "calls w3 = calls w @ [load_entry w]"
    using fr(2) by (simp add: assms(6) finished_def Let_def seek_def)
  have l: "loaded (lz w3)"
    by (simp add: assms(6) finished_def Let_def)
  have later_calls: "calls w4 = calls w3 \<and> loaded (lz w4)"
    if "world_of (call_member (run j) t' n' args' w3) = Some w4" for j t' n' args' w4
    using call_member_loaded[OF l that] l by simp
  have first_call: "calls w4 = calls w @ [load_entry w] \<and> loaded (lz w4)"
    if w4: "world_of (call_member (run (Suc k)) t n args w) = Some w4" for w4
  proof (cases "get_prop (heap w3 t) n")
    case (Fn b)
    with g w4 have "world_of (run (Suc k) (Prx t) b w3) = Some w4"
      by (simp add: call_member_def)
    from loaded_stays[OF l this] l c show ?thesis by simp
  qed (use g w4 l c in \<open>simp_all add: call_member_def\<close>)
  have reads: "get_trap h' t' n' w3 = Returned (get_prop (heap w3 t') n') w3" for h' t' n'
    using l by (simp add: get_trap_forward)
  from g c l first_call reads later_calls show ?thesis by blast
qed

theorem load_once_witness:
  "\<not> loaded (lz ready) \<and> \<not> array_includes (passthru (lz ready)) ''pixels'' \<and>
   get_prop (heap ready (obj (lz ready))) (key_of (loadMethod (lz ready))) =
     Fn [Seek 0 300, Put ''data'' (Num 7), Eval (This ''width'')] \<and>
   quiet (passthru (lz ready)) [Seek 0 300, Put ''data'' (Num 7), Eval (This ''width'')] \<and>
   exec (run 0) (Obj (obj (lz ready))) [Seek 0 300, Put ''data'' (Num 7), Eval (This ''width'')]
     (entered ''pixels'' ready) = Returned Undefined parsed \<and>
   get_trap (run (Suc 0)) 1 ''pixels'' ready =
     Returned (Fn [Ret (This ''data'')]) (finished 500 parsed) \<and>
   calls (finished 500 parsed) = [(''parse'', [], 100)] \<and>
   call_member (run (Suc 0)) 1 ''pixels'' [] ready = Returned (Num 7) (finished 500 parsed) \<and>
   get_trap (run (Suc 0)) 1 ''nosuch'' (finished 500 parsed) =
     Returned Undefined (finished 500 parsed) \<and>
   call_member (run (Suc 0)) 1 ''pixels'' [] (finished 500 parsed) =
     Returned (Num 7) (finished 500 parsed)"
proof -
  let ?body = "[Seek 0 300, Put ''data'' (Num 7), Eval (This ''width'')]"
  let ?w3 = "finished 500 parsed"
  have a: "\<not> loaded (lz ready)" and b: "\<not> array_includes (passthru (lz ready)) ''pixels''"
    and c: "get_prop (heap ready (obj (lz ready))) (key_of (loadMethod (lz ready))) = Fn ?body"
    and d: "quiet (passthru (lz ready)) ?body"
    by (simp_all add: class_defs scene_defs)
  have e: "exec (run 0) (Obj (obj (lz ready))) ?body (entered ''pixels'' ready) = Returned Undefined parsed"
    using ready_parse[of "run 0"] by (simp add: class_defs scene_defs)
  have f: "?w3 = finished (tell (file_ref (lz ready)) ready) parsed"
    by (simp add: class_defs scene_defs)
  have v: "get_prop (heap ?w3 1) ''pixels'' = Fn [Ret (This ''data'')]"
    "get_prop (heap ?w3 1) ''nosuch'' = Undefined"
    "calls ready @ [load_entry ready] = [(''parse'', [], 100)]"
    by (simp_all add: class_defs scene_defs)
  note t = load_once[OF a b c d e f, of 1 "[]", unfolded v]
  from t have g: "get_trap (run (Suc 0)) 1 ''pixels'' ready = Returned (Fn [Ret (This ''data'')]) ?w3"
    and h: "calls ?w3 = [(''parse'', [], 100)]" and l: "loaded (lz ?w3)"
    and i: "get_trap (run (Suc 0)) 1 ''nosuch'' ?w3 = Returned (get_prop (heap ?w3 1) ''nosuch'') ?w3"
    and i': "get_trap (run (Suc 0)) 1 ''pixels'' ?w3 = Returned (get_prop (heap ?w3 1) ''pixels'') ?w3"
    by blast+
  have data: "run (Suc 0) (Prx 1) [Ret (This ''data'')] ?w3 = Returned (Num 7) ?w3"
    using l by (simp add: get_trap_forward) (simp add: class_defs scene_defs)
  have j: "call_member (run (Suc 0)) 1 ''pixels'' [] ready = Returned (Num 7) ?w3"
    unfolding call_member_def g using data by simp
  have k: "call_member (run (Suc 0)) 1 ''pixels'' [] ?w3 = Returned (Num 7) ?w3"
    unfolding call_member_def i' v using data by simp
  from a b c d e g h j i[unfolded v] k show ?thesis by blast
qed

text \<open>
  C6 as stated fails when the load method throws: the flag stays false, and a second
  read of the same member invokes the method a second time.
\<close>

theorem failed_load_retried:
  "map_option calls (world_of (get_trap (run (Suc 0)) 1 ''pixels'' (with_parse [Throw ''bad data'']))) =
     Some [(''parse'', [], 100)] \<and>
   map_option calls (world_of (then_get (run (Suc 0)) 1 ''pixels''
      (get_trap (run (Suc 0)) 1 ''pixels'' (with_parse [Throw ''bad data''])))) =
     Some [(''parse'', [], 100), (''parse'', [], 100)]"
  by (simp add: class_defs scene_defs)

text \<open>
  C8, as the code has it. With no method registered, \<^verbatim>\<open>loadMethod\<close> is \<^verbatim>\<open>null\<close> and
  \<^verbatim>\<open>load\<close> looks the target up under the key "null". Unless the target happens to have
  a function there, the first read of a name that is not passed through raises a
  TypeError, after the console line and the seek to the start position: the flag stays
  false, nothing is invoked, the target is untouched, the file is left at the start
  position, and every later such read raises again in the same way.
\<close>

theorem unregistered_load_raises:
  assumes "loadMethod (lz w) = None" and "\<not> loaded (lz w)"
    and "\<not> array_includes (passthru (lz w)) n"
    and "\<not> is_fn (get_prop (heap w (obj (lz w))) ''null'')"
    and "w1 = seek (file_ref (lz w)) (startPos (lz w)) (announce ''getting'' n w)"
  shows "get_trap h t n w = Raised TypeError w1 \<and>
         \<not> loaded (lz w1) \<and> lz w1 = lz w \<and> heap w1 = heap w \<and> calls w1 = calls w \<and>
         tell (file_ref (lz w)) w1 = startPos (lz w) \<and>
         (\<forall>m. \<not> array_includes (passthru (lz w)) m \<longrightarrow>
            get_trap h t m w1 =
              Raised TypeError (seek (file_ref (lz w)) (startPos (lz w)) (announce ''getting'' m w1)))"
proof -
  have k: "key_of (loadMethod (lz w)) = ''null''"
    by (simp add: key_of_def assms(1))
  have a: "get_trap h t n w = Raised TypeError w1"
    unfolding assms(5) using assms(2,3,4) by (intro get_trap_no_method) (simp_all add: k)
  have f: "lz w1 = lz w" "heap w1 = heap w" "calls w1 = calls w"
    "tell (file_ref (lz w)) w1 = startPos (lz w)"
    by (simp_all add: assms(5) seek_def announce_def tell_def)
  have again: "get_trap h t m w1 =
      Raised TypeError (seek (file_ref (lz w)) (startPos (lz w)) (announce ''getting'' m w1))"
    if "\<not> array_includes (passthru (lz w)) m" for m
  proof -
    have "get_trap h t m w1 =
      Raised TypeError (seek (file_ref (lz w1)) (startPos (lz w1)) (announce ''getting'' m w1))"
      using assms(2,4) that by (intro get_trap_no_method) (simp_all add: f k)
    then show ?thesis by (simp only: f)
  qed
  from a f assms(2) again show ?thesis by simp
qed

theorem unregistered_load_raises_witness:
  "loadMethod (lz unregistered) = None \<and> \<not> loaded (lz unregistered) \<and>
   \<not> array_includes (passthru (lz unregistered)) ''pixels'' \<and>
   \<not> is_fn (get_prop (heap unregistered (obj (lz unregistered))) ''null'') \<and>
   get_trap (run (Suc 0)) 1 ''pixels'' unregistered =
     Raised TypeError (seek 0 100 (announce ''getting'' ''pixels'' unregistered)) \<and>
   \<not> loaded (lz (seek 0 100 (announce ''getting'' ''pixels'' unregistered))) \<and>
   calls (seek 0 100 (announce ''getting'' ''pixels'' unregistered)) = [] \<and>
   \<not> array_includes (passthru (lz unregistered)) ''data'' \<and>
   get_trap (run (Suc 0)) 1 ''data'' (seek 0 100 (announce ''getting'' ''pixels'' unregistered)) =
     Raised TypeError (seek (file_ref (lz unregistered)) (startPos (lz unregistered))
       (announce ''getting'' ''data'' (seek 0 100 (announce ''getting'' ''pixels'' unregistered))))"
proof -
  let ?w1 = "seek 0 100 (announce ''getting'' ''pixels'' unregistered)"
  have a: "loadMethod (lz unregistered) = None" and b: "\<not> loaded (lz unregistered)"
    and c: "\<not> array_includes (passthru (lz unregistered)) ''pixels''"
    and d: "\<not> is_fn (get_prop (heap unregistered (obj (lz unregistered))) ''null'')"
    and f: "calls unregistered = []"
    by (simp_all add: class_defs scene_defs)
  have e: "?w1 = seek (file_ref (lz unregistered)) (startPos (lz unregistered))
                   (announce ''getting'' ''pixels'' unregistered)"
    by (simp add: class_defs scene_defs)
  note t = unregistered_load_raises[OF a b c d e, of "run (Suc 0)" 1]
  from t have p: "get_trap (run (Suc 0)) 1 ''pixels'' unregistered = Raised TypeError ?w1"
    "\<not> loaded (lz ?w1)" "calls ?w1 = calls unregistered"
    by blast+
  from p(3) f have "calls ?w1 = []" by (rule trans)
  moreover have g: "\<not> array_includes (passthru (lz unregistered)) ''data''"
    by (simp add: class_defs scene_defs)
  moreover from t g have "get_trap (run (Suc 0)) 1 ''data'' ?w1 =
     Raised TypeError (seek (file_ref (lz unregistered)) (startPos (lz unregistered))
       (announce ''getting'' ''data'' ?w1))"
    by blast
  ultimately show ?thesis using a b c d p(1,2) by blast
qed

text \<open>
  C8 as stated fails: without \<^verbatim>\<open>later\<close>, the first read of \<^verbatim>\<open>pixels\<close> does not mark the
  instance loaded. It raises a TypeError and the flag is false in the world it leaves.
\<close>

theorem no_later_raises:
  "get_trap (run (Suc 0)) 1 ''pixels'' unregistered =
     Raised TypeError (seek 0 100 (announce ''getting'' ''pixels'' unregistered)) \<and>
   loaded (lz (seek 0 100 (announce ''getting'' ''pixels'' unregistered))) = False \<and>
   tell 0 unregistered = 500 \<and>
   tell 0 (seek 0 100 (announce ''getting'' ''pixels'' unregistered)) = 100"
  by (simp add: class_defs scene_defs)




lemma get_trap_exhausts:
  assumes "\<not> loaded (lz w)" and "\<not> array_includes (passthru (lz w)) n"
    and "get_prop (heap w (obj (lz w))) (key_of (loadMethod (lz w))) = Fn body"
    and "h (Obj (obj (lz w))) body (entered n w) = OutOfFuel"
  shows "get_trap h t n w = OutOfFuel"
  using assms
  by (simp add: get_trap_def load_unfold entered_def Let_def announce_def tell_def seek_def)

lemma load_sets_flag: "load h u = Returned x u' \<Longrightarrow> loaded (lz u')"
  by (auto simp: load_unfold finished_def Let_def seek_def split: val.splits outcome.splits)

lemma unloaded_forward_iff:
  assumes "\<not> loaded (lz w)"
  shows "get_trap h t n w = Returned (get_prop (heap w t) n) w \<longleftrightarrow>
         array_includes (passthru (lz w)) n"
proof
  assume fw: "get_trap h t n w = Returned (get_prop (heap w t) n) w"
  show "array_includes (passthru (lz w)) n"
  proof (rule ccontr)
    assume "\<not> array_includes (passthru (lz w)) n"
    with assms fw obtain x where "load h (announce ''getting'' n w) = Returned x w"
      by (auto simp: get_trap_def split: outcome.splits)
    then have "loaded (lz w)" by (rule load_sets_flag)
    with assms show False by simp
  qed
next
  assume "array_includes (passthru (lz w)) n"
  then show "get_trap h t n w = Returned (get_prop (heap w t) n) w"
    by (simp add: get_trap_forward)
qed

text \<open>
  C9, as the code has it. While the instance is not loaded, a read through the wrapper
  is forwarded with the world untouched exactly when the name is on the pass-through
  list. For any other name, whether the target has such a member or not, the trap runs
  the load, and what the read gives follows what the load method does: with no function
  under the registered key the read raises a TypeError; when the body of the method
  raises, the read raises the same; when the body has no result, neither has the read;
  and when the body returns, the read returns what the target holds under the name in
  the world the load has left, \<^verbatim>\<open>undefined\<close> for a member that is missing there.
\<close>

theorem non_exempt_access_loads:
  assumes "\<not> loaded (lz w)"
  shows
   "(read_ref h (get w) n w = Returned (get_prop (heap w (obj (lz w))) n) w
       \<longleftrightarrow> array_includes (passthru (lz w)) n) \<and>
    (\<not> array_includes (passthru (lz w)) n \<longrightarrow>
       (\<not> is_fn (get_prop (heap w (obj (lz w))) (key_of (loadMethod (lz w)))) \<longrightarrow>
          read_ref h (get w) n w =
            Raised TypeError (seek (file_ref (lz w)) (startPos (lz w)) (announce ''getting'' n w))) \<and>
       (\<forall>body. get_prop (heap w (obj (lz w))) (key_of (loadMethod (lz w))) = Fn body \<longrightarrow>
          (h (Obj (obj (lz w))) body (entered n w) = OutOfFuel \<longrightarrow>
             read_ref h (get w) n w = OutOfFuel) \<and>
          (\<forall>e w2. h (Obj (obj (lz w))) body (entered n w) = Raised e w2 \<longrightarrow>
             read_ref h (get w) n w = Raised e w2) \<and>
          (\<forall>r w2. h (Obj (obj (lz w))) body (entered n w) = Returned r w2 \<longrightarrow>
             read_ref h (get w) n w =
               Returned (get_prop (heap (finished (tell (file_ref (lz w)) w) w2) (obj (lz w))) n)
                        (finished (tell (file_ref (lz w)) w) w2) \<and>
             loaded (lz (finished (tell (file_ref (lz w)) w) w2)) \<and>
             (props (heap (finished (tell (file_ref (lz w)) w) w2) (obj (lz w))) n = None \<longrightarrow>
                read_ref h (get w) n w =
                  Returned Undefined (finished (tell (file_ref (lz w)) w) w2)))))"
proof -
  let ?t = "obj (lz w)"
  have rd: "read_ref h (get w) n w = get_trap h ?t n w"
    by (simp add: get_def)
  have a: "get_trap h ?t n w = Returned (get_prop (heap w ?t) n) w
             \<longleftrightarrow> array_includes (passthru (lz w)) n"
    using assms by (rule unloaded_forward_iff)
  have b: "get_trap h ?t n w =
      Raised TypeError (seek (file_ref (lz w)) (startPos (lz w)) (announce ''getting'' n w))"
    if "\<not> array_includes (passthru (lz w)) n"
      "\<not> is_fn (get_prop (heap w ?t) (key_of (loadMethod (lz w))))"
    using assms that by (rule get_trap_no_method)
  have c: "get_trap h ?t n w = OutOfFuel"
    if "\<not> array_includes (passthru (lz w)) n"
      "get_prop (heap w ?t) (key_of (loadMethod (lz w))) = Fn body"
      "h (Obj ?t) body (entered n w) = OutOfFuel" for body
    using assms that by (rule get_trap_exhausts)
  have d: "get_trap h ?t n w = Raised e w2"
    if "\<not> array_includes (passthru (lz w)) n"
      "get_prop (heap w ?t) (key_of (loadMethod (lz w))) = Fn body"
      "h (Obj ?t) body (entered n w) = Raised e w2" for body e w2
    using assms that by (rule get_trap_raises)
  have e: "get_trap h ?t n w =
      Returned (get_prop (heap (finished (tell (file_ref (lz w)) w) w2) ?t) n)
               (finished (tell (file_ref (lz w)) w) w2)"
    if "\<not> array_includes (passthru (lz w)) n"
      "get_prop (heap w ?t) (key_of (loadMethod (lz w))) = Fn body"
      "h (Obj ?t) body (entered n w) = Returned r w2" for body r w2
    using assms that by (rule get_trap_returns)
  have f: "loaded (lz (finished p w2))" for p w2
    by (simp add: finished_def Let_def)
  have g: "get_prop ob n = Undefined" if "props ob n = None" for ob
    using that by (simp add: get_prop_def)
  show ?thesis
    unfolding rd
  proof (intro conjI impI allI)
    show "get_trap h ?t n w = Returned (get_prop (heap w ?t) n) w
            \<longleftrightarrow> array_includes (passthru (lz w)) n" by (rule a)
  next
    fix body r w2
    assume h1: "\<not> array_includes (passthru (lz w)) n"
      and h2: "get_prop (heap w ?t) (key_of (loadMethod (lz w))) = Fn body"
      and h3: "h (Obj ?t) body (entered n w) = Returned r w2"
      and h4: "props (heap (finished (tell (file_ref (lz w)) w) w2) ?t) n = None"
    from e[OF h1 h2 h3] g[OF h4]
    show "get_trap h ?t n w = Returned Undefined (finished (tell (file_ref (lz w)) w) w2)"
      by simp
  qed (rule b c d e f; assumption)+
qed


theorem non_exempt_access_loads_witness:
  "\<not> loaded (lz ready) \<and>
   array_includes (passthru (lz ready)) ''width'' \<and>
   read_ref (run (Suc 0)) (get ready) ''width'' ready = Returned (Num 64) ready \<and>
   \<not> array_includes (passthru (lz ready)) ''nosuch'' \<and>
   get_prop (heap ready (obj (lz ready))) (key_of (loadMethod (lz ready))) =
     Fn [Seek 0 300, Put ''data'' (Num 7), Eval (This ''width'')] \<and>
   run (Suc 0) (Obj (obj (lz ready))) [Seek 0 300, Put ''data'' (Num 7), Eval (This ''width'')]
     (entered ''nosuch'' ready) =
     Returned Undefined (put_prop 1 ''data'' (Num 7) (seek 0 300 (entered ''nosuch'' ready))) \<and>
   props (heap (finished 500 (put_prop 1 ''data'' (Num 7) (seek 0 300 (entered ''nosuch'' ready))))
            (obj (lz ready))) ''nosuch'' = None \<and>
   read_ref (run (Suc 0)) (get ready) ''nosuch'' ready =
     Returned Undefined
       (finished 500 (put_prop 1 ''data'' (Num 7) (seek 0 300 (entered ''nosuch'' ready)))) \<and>
   run 0 (Obj (obj (lz ready))) [Seek 0 300, Put ''data'' (Num 7), Eval (This ''width'')]
     (entered ''nosuch'' ready) = OutOfFuel \<and>
   read_ref (run 0) (get ready) ''nosuch'' ready = OutOfFuel \<and>
   \<not> loaded (lz (with_parse [Throw ''corrupt''])) \<and>
   \<not> array_includes (passthru (lz (with_parse [Throw ''corrupt'']))) ''nosuch'' \<and>
   get_prop (heap (with_parse [Throw ''corrupt'']) (obj (lz (with_parse [Throw ''corrupt'']))))
     (key_of (loadMethod (lz (with_parse [Throw ''corrupt''])))) = Fn [Throw ''corrupt''] \<and>
   run (Suc 0) (Obj (obj (lz (with_parse [Throw ''corrupt''])))) [Throw ''corrupt'']
     (entered ''nosuch'' (with_parse [Throw ''corrupt''])) =
     Raised (Thrown ''corrupt'') (entered ''nosuch'' (with_parse [Throw ''corrupt''])) \<and>
   read_ref (run (Suc 0)) (get (with_parse [Throw ''corrupt''])) ''nosuch''
     (with_parse [Throw ''corrupt'']) =
     Raised (Thrown ''corrupt'') (entered ''nosuch'' (with_parse [Throw ''corrupt''])) \<and>
   \<not> loaded (lz unregistered) \<and>
   \<not> array_includes (passthru (lz unregistered)) ''nosuch'' \<and>
   \<not> is_fn (get_prop (heap unregistered (obj (lz unregistered)))
              (key_of (loadMethod (lz unregistered)))) \<and>
   read_ref (run (Suc 0)) (get unregistered) ''nosuch'' unregistered =
     Raised TypeError (seek (file_ref (lz unregistered)) (startPos (lz unregistered))
       (announce ''getting'' ''nosuch'' unregistered))"
proof -
  let ?body = "[Seek 0 300, Put ''data'' (Num 7), Eval (This ''width'')]"
  let ?w2 = "put_prop 1 ''data'' (Num 7) (seek 0 300 (entered ''nosuch'' ready))"
  let ?v = "with_parse [Throw ''corrupt'']"
  have a: "\<not> loaded (lz ready)" and a1: "array_includes (passthru (lz ready)) ''width''"
    and a2: "\<not> array_includes (passthru (lz ready)) ''nosuch''"
    and a3: "get_prop (heap ready (obj (lz ready))) (key_of (loadMethod (lz ready))) = Fn ?body"
    and a4: "props (heap (finished 500 ?w2) (obj (lz ready))) ''nosuch'' = None"
    and a5: "tell (file_ref (lz ready)) ready = 500"
    and a6: "get_prop (heap ready (obj (lz ready))) ''width'' = Num 64"
    by (simp_all add: class_defs scene_defs)
  have a7: "run (Suc 0) (Obj (obj (lz ready))) ?body (entered ''nosuch'' ready) = Returned Undefined ?w2"
    by (simp add: class_defs scene_defs)
  have a8: "run 0 (Obj (obj (lz ready))) ?body (entered ''nosuch'' ready) = OutOfFuel"
    by simp
  have b: "\<not> loaded (lz ?v)" and b2: "\<not> array_includes (passthru (lz ?v)) ''nosuch''"
    and b3: "get_prop (heap ?v (obj (lz ?v))) (key_of (loadMethod (lz ?v))) = Fn [Throw ''corrupt'']"
    by (simp_all add: class_defs scene_defs)
  have b4: "run (Suc 0) (Obj (obj (lz ?v))) [Throw ''corrupt''] (entered ''nosuch'' ?v) =
              Raised (Thrown ''corrupt'') (entered ''nosuch'' ?v)"
    by simp
  have c: "\<not> loaded (lz unregistered)"
    and c2: "\<not> array_includes (passthru (lz unregistered)) ''nosuch''"
    and c3: "\<not> is_fn (get_prop (heap unregistered (obj (lz unregistered)))
                       (key_of (loadMethod (lz unregistered))))"
    by (simp_all add: class_defs scene_defs)
  note t1 = non_exempt_access_loads[OF a, of "run (Suc 0)" "''width''", unfolded a6]
  note t2 = non_exempt_access_loads[OF a, of "run (Suc 0)" "''nosuch''", unfolded a5]
  note t3 = non_exempt_access_loads[OF a, of "run 0" "''nosuch''"]
  note t4 = non_exempt_access_loads[OF b, of "run (Suc 0)" "''nosuch''"]
  note t5 = non_exempt_access_loads[OF c, of "run (Suc 0)" "''nosuch''"]
  from t1 a1 have r1: "read_ref (run (Suc 0)) (get ready) ''width'' ready = Returned (Num 64) ready"
    by blast
  from t2 a2 a3 a7 a4
  have r2: "read_ref (run (Suc 0)) (get ready) ''nosuch'' ready = Returned Undefined (finished 500 ?w2)"
    by blast
  from t3 a2 a3 a8 have r3: "read_ref (run 0) (get ready) ''nosuch'' ready = OutOfFuel"
    by blast
  from t4 b2 b3 b4
  have r4: "read_ref (run (Suc 0)) (get ?v) ''nosuch'' ?v =
              Raised (Thrown ''corrupt'') (entered ''nosuch'' ?v)"
    by blast
  from t5 c2 c3
  have r5: "read_ref (run (Suc 0)) (get unregistered) ''nosuch'' unregistered =
     Raised TypeError (seek (file_ref (lz unregistered)) (startPos (lz unregistered))
       (announce ''getting'' ''nosuch'' unregistered))"
    by blast
  from a a1 r1 a2 a3 a7 a4 r2 a8 r3 b b2 b3 b4 r4 c c2 c3 r5 show ?thesis
    by (intro conjI)
qed

text \<open>
  C9 as stated fails where the load does not return: the first read of a name that is
  not passed through triggers the load, the load method throws, and the read yields no
  value at all.
\<close>

theorem non_exempt_access_raises:
  "read_ref (run (Suc 0)) (get (with_parse [Throw ''corrupt''])) ''nosuch''
     (with_parse [Throw ''corrupt'']) =
     Raised (Thrown ''corrupt'') (entered ''nosuch'' (with_parse [Throw ''corrupt''])) \<and>
   loaded (lz (with_parse [Throw ''corrupt''])) = False \<and>
   array_includes (passthru (lz (with_parse [Throw ''corrupt'']))) ''nosuch'' = False"
  by (simp add: class_defs scene_defs)



text \<open>
  The \<^verbatim>\<open>apply\<close> trap runs only when the wrapper itself is called as a function; a method
  call on a member never reaches it. With nothing binding the identifier \<^verbatim>\<open>name\<close> its
  guard raises a ReferenceError on an instance that is not loaded, and the value of the
  forwarded call is dropped.
\<close>

lemma apply_trap_on_function_target:
  "apply_trap (run (Suc 0)) None 2 NoThis [] fn_fresh = Raised ReferenceError fn_fresh \<and>
   apply_trap (run (Suc 0)) (Some ''width'') 2 NoThis [] (ignore [''width''] fn_fresh) =
     Returned Undefined (ignore [''width''] fn_fresh)"
  by (simp add: apply_trap_def forward_call_def class_defs scene_defs)



end
